theory Spec2Isabelle
  imports Main "HOL-Library.Sublist" "HOL-Library.Word"
begin

section \<open>A static-file HTTP server: shallow embedding of http.cpp\<close>

text \<open>
  The connection handler of \<^verbatim>\<open>HTTPServer\<close> is modelled as a pure function of
  \<^item> the configured document root \<^verbatim>\<open>web_root\<close>,
  \<^item> the environment it queries (the file system and the clock), and
  \<^item> the outcome of the single \<^verbatim>\<open>read\<close> on the client socket.
  Its result is the list of observable events in program order (files it tried to
  open, byte blocks handed to \<^verbatim>\<open>send\<close>, the \<^verbatim>\<open>close\<close> of the socket) together with
  how the call ended. Strings are byte strings: \<^typ>\<open>char\<close> is an 8-bit character.
\<close>

subsection \<open>Characters and the string operations of the C++ library used by the code\<close>

definition NUL :: char where
  "NUL = CHR 0x00"

definition CR :: char where
  "CR = CHR 0x0D"

definition LF :: char where
  "LF = CHR 0x0A"

definition crlf :: string where
  "crlf = [CR, LF]"

text \<open>\<^verbatim>\<open>path.find_last_of('.')\<close>: the index of the last occurrence, \<open>None\<close> for \<^verbatim>\<open>npos\<close>.\<close>

fun find_last_of :: "char \<Rightarrow> string \<Rightarrow> nat option" where
  "find_last_of c [] = None"
| "find_last_of c (x # xs) =
     (case find_last_of c xs of
        Some i \<Rightarrow> Some (Suc i)
      | None \<Rightarrow> (if x = c then Some 0 else None))"

text \<open>\<^verbatim>\<open>s.substr(pos)\<close> for \<open>pos \<le> length s\<close>: the suffix starting at \<open>pos\<close>.\<close>

definition substr :: "string \<Rightarrow> nat \<Rightarrow> string" where
  "substr s pos = drop pos s"

text \<open>\<^verbatim>\<open>hay.find(needle)\<close>: the index of the first occurrence, \<open>None\<close> for \<^verbatim>\<open>npos\<close>.
  An empty needle is found at position 0, also in an empty string.\<close>

fun find_str :: "string \<Rightarrow> string \<Rightarrow> nat option" where
  "find_str needle [] = (if needle = [] then Some 0 else None)"
| "find_str needle (h # hs) =
     (if prefix needle (h # hs) then Some 0
      else map_option Suc (find_str needle hs))"

text \<open>\<^verbatim>\<open>std::to_string\<close> and \<^verbatim>\<open>operator<<\<close> on integers: decimal digits, no padding.\<close>

definition digit_char :: "nat \<Rightarrow> char" where
  "digit_char d = ''0123456789'' ! d"

fun to_string_nat :: "nat \<Rightarrow> string" where
  "to_string_nat n =
     (if n < 10 then [digit_char n]
      else to_string_nat (n div 10) @ [digit_char (n mod 10)])"

definition to_string :: "int \<Rightarrow> string" where
  "to_string i = (if i < 0 then CHR ''-'' # to_string_nat (nat (- i)) else to_string_nat (nat i))"

text \<open>\<^verbatim>\<open>isspace\<close> in the "C" locale: space, and the five control characters
  horizontal tab, line feed, vertical tab, form feed, carriage return.\<close>

definition isspace :: "char \<Rightarrow> bool" where
  "isspace c = (c \<in> set [CHR '' '', CHR 0x09, CHR 0x0A, CHR 0x0B, CHR 0x0C, CHR 0x0D])"

text \<open>\<^verbatim>\<open>std::getline(stream, line)\<close> on a fresh stream: everything before the first
  line feed, or the whole string when there is none.\<close>

definition getline :: "string \<Rightarrow> string" where
  "getline s = takeWhile (\<lambda>c. c \<noteq> LF) s"

text \<open>\<^verbatim>\<open>stream >> token\<close>: skip leading white space, then take characters up to the next
  white space or the end. The result is the token and the unread rest. When the end
  is reached before any character is taken the extraction fails and the target keeps
  its value, the empty string of its default construction; the rest is then empty, so
  every later extraction gives the empty string as well, as a failed stream does.\<close>

definition extract_token :: "string \<Rightarrow> string \<times> string" where
  "extract_token s =
     (let s' = dropWhile isspace s
      in (takeWhile (\<lambda>c. \<not> isspace c) s', dropWhile (\<lambda>c. \<not> isspace c) s'))"

subsection \<open>MimeRegistry\<close>

text \<open>\<^verbatim>\<open>setupMimeTypes\<close>: the table, keyed by the extension with its dot.\<close>

definition mime_types :: "(string \<times> string) list" where
  "mime_types =
     [(''.html'', ''text/html''),
      (''.css'', ''text/css''),
      (''.js'', ''application/javascript''),
      (''.json'', ''application/json''),
      (''.png'', ''image/png''),
      (''.jpg'', ''image/jpeg''),
      (''.jpeg'', ''image/jpeg''),
      (''.gif'', ''image/gif''),
      (''.txt'', ''text/plain'')]"

definition getMimeType :: "string \<Rightarrow> string" where
  "getMimeType path =
     (case find_last_of CHR ''.'' path of
        Some dot_pos \<Rightarrow>
          (case map_of mime_types (substr path dot_pos) of
             Some t \<Rightarrow> t
           | None \<Rightarrow> ''application/octet-stream'')
      | None \<Rightarrow> ''application/octet-stream'')"

subsection \<open>The environment of a connection handler\<close>

text \<open>
  The handler reads three things it does not own. \<open>fs_canonical\<close> is
  \<^verbatim>\<open>std::filesystem::canonical\<close>: the absolute, symlink-free form of a path that exists,
  and \<open>None\<close> where the library throws \<^verbatim>\<open>filesystem_error\<close> (the path does not exist
  or cannot be resolved). \<open>fs_open\<close> is the construction of a binary \<^verbatim>\<open>std::ifstream\<close>:
  \<open>None\<close> when the stream does not open, and otherwise the two things the handler
  observes of the open stream. \<open>time_string\<close> is what \<^verbatim>\<open>strftime\<close> yields for the
  current time in \<^verbatim>\<open>getTimeString\<close>.

  An open stream is observed twice, independently: \<open>tellg_end\<close> is the position
  \<^verbatim>\<open>tellg\<close> reports after \<^verbatim>\<open>seekg(0, std::ios::end)\<close>, a signed 64-bit offset (\<open>- 1\<close>
  when it fails), and \<open>file_bytes\<close> are the bytes the successive \<^verbatim>\<open>read\<close> calls
  deliver from the start until one delivers nothing. For a regular file the two
  agree; for a directory that opens, or a file of a virtual file system, they need
  not.
\<close>

record file_stream =
  tellg_end :: "64 word"
  file_bytes :: string

record env =
  fs_canonical :: "string \<Rightarrow> string option"
  fs_open :: "string \<Rightarrow> file_stream option"
  time_string :: string

definition getTimeString :: "env \<Rightarrow> string" where
  "getTimeString e = time_string e"

text \<open>What a handler does that can be seen from outside, in program order.\<close>

datatype event =
    Open string
  | Send string
  | Close

text \<open>How a call ends: it returns, or an exception of \<^verbatim>\<open>std::filesystem\<close> leaves it
  uncaught (no function of the program has a handler on this path, and \<^verbatim>\<open>handleClient\<close>
  is the entry function of its thread), or it reads past the end of an array.\<close>

datatype completion =
    Returns
  | Throws_filesystem_error
  | Undefined_behaviour

type_synonym run = "event list \<times> completion"

definition sent :: "event list \<Rightarrow> string" where
  "sent evs = concat (map (\<lambda>e. case e of Send bs \<Rightarrow> bs | _ \<Rightarrow> []) evs)"

definition opened :: "event list \<Rightarrow> string list" where
  "opened evs = concat (map (\<lambda>e. case e of Open p \<Rightarrow> [p] | _ \<Rightarrow> []) evs)"

subsection \<open>ResponseWriter\<close>

definition error_body :: "int \<Rightarrow> string \<Rightarrow> string" where
  "error_body error_code error_message =
     ''<html><body><h1>'' @ to_string error_code @ '' '' @ error_message @ ''</h1></body></html>''"

definition error_response :: "env \<Rightarrow> int \<Rightarrow> string \<Rightarrow> string" where
  "error_response e error_code error_message =
     ''HTTP/1.1 '' @ to_string error_code @ '' '' @ error_message @ crlf
     @ ''Content-Type: text/html'' @ crlf
     @ ''Content-Length: '' @ to_string_nat (length (error_body error_code error_message)) @ crlf
     @ ''Date: '' @ getTimeString e @ crlf
     @ ''Server: CPP-HTTP-Server/1.0'' @ crlf
     @ ''Connection: close'' @ crlf @ crlf
     @ error_body error_code error_message"

definition sendError :: "env \<Rightarrow> int \<Rightarrow> string \<Rightarrow> event list" where
  "sendError e error_code error_message = [Send (error_response e error_code error_message)]"

text \<open>The header block of a file response; \<open>file_size\<close> is the \<^verbatim>\<open>size_t\<close> that
  \<^verbatim>\<open>size_t file_size = file.tellg()\<close> holds: the offset read as an unsigned 64-bit
  number.\<close>

definition file_headers :: "env \<Rightarrow> string \<Rightarrow> nat \<Rightarrow> string" where
  "file_headers e file_path file_size =
     ''HTTP/1.1 200 OK'' @ crlf
     @ ''Content-Type: '' @ getMimeType file_path @ crlf
     @ ''Content-Length: '' @ to_string_nat file_size @ crlf
     @ ''Date: '' @ getTimeString e @ crlf
     @ ''Server: CPP-HTTP-Server/1.0'' @ crlf
     @ ''Connection: close'' @ crlf @ crlf"

text \<open>The loop \<^verbatim>\<open>while (file.read(buffer, 4096).gcount() > 0) send(..., file.gcount())\<close>
  over the bytes not yet read: each round takes up to 4096 of them and sends what it
  took; the round that takes nothing ends the loop.\<close>

function send_file_loop :: "string \<Rightarrow> event list" where
  "send_file_loop rest =
     (let chunk = take 4096 rest
      in if length chunk > 0 then Send chunk # send_file_loop (drop 4096 rest) else [])"
  by pat_completeness auto
termination
  by (relation "measure length") auto

text \<open>The literal reply of \<^verbatim>\<open>handleClient\<close> to a method other than GET.\<close>

definition method_not_allowed_response :: string where
  "method_not_allowed_response =
     ''HTTP/1.1 405 Method Not Allowed'' @ crlf
     @ ''Content-Type: text/plain'' @ crlf
     @ ''Content-Length: 21'' @ crlf @ crlf
     @ ''Method Not Supported\<newline>''"

subsection \<open>PathResolver and file delivery: handleGetRequest\<close>

definition request_file_path :: "string \<Rightarrow> string \<Rightarrow> string" where
  "request_file_path web_root path = web_root @ (if path = ''/'' then ''/index.html'' else path)"

definition handleGetRequest :: "env \<Rightarrow> string \<Rightarrow> string \<Rightarrow> run" where
  "handleGetRequest e web_root path =
     (let file_path = request_file_path web_root path
      in case fs_canonical e web_root of
           None \<Rightarrow> ([], Throws_filesystem_error)
         | Some canonical_path \<Rightarrow>
       (case fs_canonical e file_path of
           None \<Rightarrow> ([], Throws_filesystem_error)
         | Some requested_path \<Rightarrow>
       if find_str canonical_path requested_path \<noteq> Some 0
       then (sendError e 403 ''Forbidden'', Returns)
       else (case fs_open e file_path of
           None \<Rightarrow> (Open file_path # sendError e 404 ''Not Found'', Returns)
         | Some file \<Rightarrow>
             (let file_size = unat (tellg_end file)
              in (Open file_path # Send (file_headers e file_path file_size)
                    # send_file_loop (file_bytes file), Returns)))))"

subsection \<open>RequestParser and ConnectionHandler: handleClient\<close>

text \<open>The single \<^verbatim>\<open>read(client_socket, buffer, 4096)\<close>: it fails, or it delivers bytes
  (none at end of stream), of which at most 4096 reach the zero-initialised buffer.\<close>

datatype read_result =
    Read_failed
  | Read_bytes string

definition bytes_read :: "read_result \<Rightarrow> int" where
  "bytes_read r = (case r of Read_failed \<Rightarrow> - 1 | Read_bytes d \<Rightarrow> int (min 4096 (length d)))"

definition buffer_after_read :: "read_result \<Rightarrow> string" where
  "buffer_after_read r =
     (case r of
        Read_failed \<Rightarrow> replicate 4096 NUL
      | Read_bytes d \<Rightarrow> take 4096 d @ replicate (4096 - length d) NUL)"

text \<open>\<^verbatim>\<open>std::string request(buffer)\<close> reads the array as a C string, up to its first
  zero byte. An array without one (4096 bytes read, none of them zero) is read past
  its end.\<close>

definition c_string :: "string \<Rightarrow> string option" where
  "c_string buf = (if NUL \<in> set buf then Some (takeWhile (\<lambda>c. c \<noteq> NUL) buf) else None)"

record request =
  req_method :: string
  req_path :: string
  req_protocol :: string

definition parse_request_line :: "string \<Rightarrow> request" where
  "parse_request_line request_line =
     (let (m, rest1) = extract_token request_line;
          (p, rest2) = extract_token rest1;
          (pr, rest3) = extract_token rest2
      in \<lparr>req_method = m, req_path = p, req_protocol = pr\<rparr>)"

definition handleClient :: "env \<Rightarrow> string \<Rightarrow> read_result \<Rightarrow> run" where
  "handleClient e web_root r =
     (if bytes_read r > 0 then
        (case c_string (buffer_after_read r) of
           None \<Rightarrow> ([], Undefined_behaviour)
         | Some req \<Rightarrow>
             (let rq = parse_request_line (getline req)
              in if req_method rq = ''GET'' then
                   (case handleGetRequest e web_root (req_path rq) of
                      (evs, Returns) \<Rightarrow> (evs @ [Close], Returns)
                    | (evs, c) \<Rightarrow> (evs, c))
                 else ([Send method_not_allowed_response, Close], Returns)))
      else ([Close], Returns))"

subsection \<open>Notions of the specification used to state the claims\<close>

text \<open>The white-space separated tokens of a line, in order.\<close>

function ws_tokens :: "string \<Rightarrow> string list" where
  "ws_tokens s =
     (let s' = dropWhile isspace s
      in if s' = [] then []
         else takeWhile (\<lambda>c. \<not> isspace c) s' # ws_tokens (dropWhile (\<lambda>c. \<not> isspace c) s'))"
  by pat_completeness auto
termination
proof (relation "measure length")
  show "wf (measure length)" by simp
next
  fix s s' :: string
  assume s': "s' = dropWhile isspace s" and ne: "s' \<noteq> []"
  from ne obtain c cs where cons: "s' = c # cs" by (cases s') auto
  with s' have "dropWhile isspace s = c # cs" by simp
  then have "\<not> isspace c"
    by (simp add: dropWhile_eq_Cons_conv)
  with cons have "length (dropWhile (\<lambda>c. \<not> isspace c) s') \<le> length cs"
    by (simp add: length_dropWhile_le)
  also have "length cs < length s'" using cons by simp
  also have "length s' \<le> length s" using s' by (simp add: length_dropWhile_le)
  finally show "(dropWhile (\<lambda>c. \<not> isspace c) s', s) \<in> measure length" by simp
qed

text \<open>The \<open>n\<close>-th token of a line, the empty string when the line has fewer tokens.\<close>

definition token_or_empty :: "string list \<Rightarrow> nat \<Rightarrow> string" where
  "token_or_empty ts n = (if n < length ts then ts ! n else [])"

text \<open>The number a string of decimal digits denotes.\<close>

definition digit_value :: "char \<Rightarrow> nat" where
  "digit_value c = of_char c - 48"

definition decimal_value :: "string \<Rightarrow> nat" where
  "decimal_value s = foldl (\<lambda>a c. 10 * a + digit_value c) 0 s"

text \<open>Letter case of ASCII: two strings differ only in letter case when they are
  different and equal after mapping \<open>A\<close>..\<open>Z\<close> to \<open>a\<close>..\<open>z\<close>.\<close>

definition to_lower :: "char \<Rightarrow> char" where
  "to_lower c =
     (case map_of (zip ''ABCDEFGHIJKLMNOPQRSTUVWXYZ'' ''abcdefghijklmnopqrstuvwxyz'') c of
        Some l \<Rightarrow> l
      | None \<Rightarrow> c)"

definition differs_only_in_case :: "string \<Rightarrow> string \<Rightarrow> bool" where
  "differs_only_in_case a b = (a \<noteq> b \<and> map to_lower a = map to_lower b)"

text \<open>Containment by path components: the canonical candidate is the canonical root
  itself or lies below it.\<close>

definition under_root :: "string \<Rightarrow> string \<Rightarrow> bool" where
  "under_root root cand = (cand = root \<or> prefix (root @ ''/'') cand)"

text \<open>The status code of a response: whether the bytes sent start with the status
  line of that code.\<close>

definition has_status :: "nat \<Rightarrow> event list \<Rightarrow> bool" where
  "has_status code evs = prefix (''HTTP/1.1 '' @ to_string_nat code @ '' '') (sent evs)"

subsection \<open>A small document tree for concrete runs\<close>

definition www_root :: string where
  "www_root = ''/srv/www''"

text \<open>The root \<open>/srv/www\<close> holds \<open>index.html\<close> (10 bytes) and \<open>uptime\<close>, a file of a
  virtual file system that reports one page as its size and delivers three bytes.
  The root itself is a directory: it opens, the seek to its end reports the largest
  offset, and reading it delivers nothing. Beside the root lies the directory
  \<open>/srv/www-secrets\<close> with the file \<open>x.txt\<close>, and \<open>/etc/passwd\<close> exists.\<close>

definition www_env :: env where
  "www_env =
     \<lparr>fs_canonical = map_of
        [(''/srv/www'', ''/srv/www''),
         (''/srv/www/index.html'', ''/srv/www/index.html''),
         (''/srv/www/uptime'', ''/srv/www/uptime''),
         (''/srv/www-secrets/x.txt'', ''/srv/www-secrets/x.txt''),
         (''/srv/www/../../etc/passwd'', ''/etc/passwd'')],
      fs_open = map_of
        [(''/srv/www'', \<lparr>tellg_end = 0x7FFFFFFFFFFFFFFF, file_bytes = []\<rparr>),
         (''/srv/www/index.html'', \<lparr>tellg_end = 10, file_bytes = ''hello1234\<newline>''\<rparr>),
         (''/srv/www/uptime'', \<lparr>tellg_end = 4096, file_bytes = ''up\<newline>''\<rparr>),
         (''/srv/www-secrets/x.txt'', \<lparr>tellg_end = 7, file_bytes = ''secret\<newline>''\<rparr>),
         (''/srv/www/../../etc/passwd'', \<lparr>tellg_end = 11, file_bytes = ''root:x:0:0\<newline>''\<rparr>)],
      time_string = ''Wed, 21 Oct 2024 07:28:00 GMT''\<rparr>"

subsection \<open>Helper lemmas on the string operations\<close>

text \<open>The recursive equations of the loops are unfolded by hand, not by the simplifier.\<close>

declare to_string_nat.simps [simp del]
declare send_file_loop.simps [simp del]
declare ws_tokens.simps [simp del]

lemma to_string_nat_numeral [simp]:
  "to_string_nat (numeral k) =
     (if (numeral k :: nat) < 10 then [digit_char (numeral k)]
      else to_string_nat (numeral k div 10) @ [digit_char (numeral k mod 10)])"
  by (rule to_string_nat.simps)

lemma to_string_nat_small [simp]:
  "to_string_nat 0 = ''0''" "to_string_nat 1 = ''1''" "to_string_nat (Suc 0) = ''1''"
  by (simp_all add: to_string_nat.simps [of 0] to_string_nat.simps [of 1]
      to_string_nat.simps [of "Suc 0"] digit_char_def)

lemma to_string_of_nat: "to_string (int n) = to_string_nat n"
  by (simp add: to_string_def)

lemma send_file_loop_Nil [simp]: "send_file_loop [] = []"
  by (simp add: send_file_loop.simps)

lemma send_file_loop_one_chunk:
  "c \<noteq> [] \<Longrightarrow> length c \<le> 4096 \<Longrightarrow> send_file_loop c = [Send c]"
  by (simp add: send_file_loop.simps [of c])

lemma opened_send_file_loop: "opened (send_file_loop content) = []"
proof (induction content rule: send_file_loop.induct)
  case (1 rest)
  show ?case
  proof (cases "take 4096 rest = []")
    case True
    then show ?thesis
      by (simp add: send_file_loop.simps [of rest] opened_def)
  next
    case False
    with 1 have "opened (send_file_loop (drop 4096 rest)) = []" by simp
    with False show ?thesis
      by (simp add: send_file_loop.simps [of rest] opened_def)
  qed
qed

lemma sent_send_file_loop: "sent (send_file_loop content) = content"
proof (induction content rule: send_file_loop.induct)
  case (1 rest)
  show ?case
  proof (cases "take 4096 rest = []")
    case True
    then have "rest = []" by simp
    then show ?thesis by (simp add: sent_def)
  next
    case False
    with 1 have "sent (send_file_loop (drop 4096 rest)) = drop 4096 rest" by simp
    with False show ?thesis
      by (simp add: send_file_loop.simps [of rest] sent_def)
  qed
qed

lemma chunks_send_file_loop:
  "ev \<in> set (send_file_loop content) \<Longrightarrow> \<exists>c. ev = Send c \<and> 0 < length c \<and> length c \<le> 4096"
proof (induction content rule: send_file_loop.induct)
  case (1 rest)
  show ?case
  proof (cases "take 4096 rest = []")
    case True
    with "1.prems" show ?thesis
      by (simp add: send_file_loop.simps [of rest])
  next
    case False
    with "1.prems" have "ev = Send (take 4096 rest) \<or> ev \<in> set (send_file_loop (drop 4096 rest))"
      by (simp add: send_file_loop.simps [of rest])
    then show ?thesis
    proof
      assume "ev = Send (take 4096 rest)"
      with False show ?thesis by simp
    next
      assume "ev \<in> set (send_file_loop (drop 4096 rest))"
      with False "1.IH" show ?thesis by simp
    qed
  qed
qed

lemma find_last_of_Some:
  "find_last_of c s = Some i \<Longrightarrow> i < length s \<and> s ! i = c \<and> c \<notin> set (drop (Suc i) s)"
proof (induction s arbitrary: i)
  case Nil
  then show ?case by simp
next
  case (Cons x xs)
  show ?case
  proof (cases "find_last_of c xs")
    case None
    with Cons.prems have "x = c" and "i = 0"
      by (auto split: if_splits)
    moreover from None have "c \<notin> set xs"
      by (induction xs) (auto split: option.splits if_splits)
    ultimately show ?thesis by simp
  next
    case (Some j)
    with Cons.prems have "i = Suc j" by simp
    with Cons.IH [OF Some] show ?thesis by simp
  qed
qed

lemma find_last_of_None: "find_last_of c s = None \<longleftrightarrow> c \<notin> set s"
  by (induction s) (auto split: option.splits)

lemma substr_at_dot:
  assumes "find_last_of c s = Some i"
  shows "substr s i = c # drop (Suc i) s"
proof -
  from find_last_of_Some [OF assms] have "i < length s" and "s ! i = c"
    by simp_all
  then show ?thesis
    using Cons_nth_drop_Suc [of i s] by (simp add: substr_def)
qed

lemma find_str_prefix: "find_str needle hay = Some 0 \<longleftrightarrow> prefix needle hay"
  by (cases hay) (auto split: if_splits)

subsection \<open>Helper lemmas on the handlers\<close>

lemma bytes_read_pos: "0 < bytes_read r \<longleftrightarrow> (\<exists>d. r = Read_bytes d \<and> d \<noteq> [])"
  by (cases r) (auto simp: bytes_read_def)

lemma takeWhile_append_stop:
  "\<not> P x \<Longrightarrow> takeWhile P (xs @ x # ys) = takeWhile P xs"
  by (induction xs) auto

lemma c_string_short_read:
  assumes "length d < 4096"
  shows "c_string (buffer_after_read (Read_bytes d)) = Some (takeWhile (\<lambda>c. c \<noteq> NUL) d)"
proof -
  from assms obtain n where n: "4096 - length d = Suc n"
    by (cases "4096 - length d") auto
  from assms have "buffer_after_read (Read_bytes d) = d @ NUL # replicate n NUL"
    by (simp add: buffer_after_read_def n)
  then show ?thesis
    by (simp add: c_string_def takeWhile_append_stop)
qed

lemma handleClient_not_read:
  "bytes_read r \<le> 0 \<Longrightarrow> handleClient e web_root r = ([Close], Returns)"
  by (simp add: handleClient_def)

lemma handleClient_request:
  assumes "0 < bytes_read r" and "c_string (buffer_after_read r) = Some req"
  shows "handleClient e web_root r =
     (if req_method (parse_request_line (getline req)) = ''GET'' then
        (case handleGetRequest e web_root (req_path (parse_request_line (getline req))) of
           (evs, Returns) \<Rightarrow> (evs @ [Close], Returns)
         | (evs, c) \<Rightarrow> (evs, c))
      else ([Send method_not_allowed_response, Close], Returns))"
  using assms by (simp add: handleClient_def Let_def)

lemma handleGetRequest_not_canonical:
  "fs_canonical e web_root = None \<or> fs_canonical e (request_file_path web_root path) = None
   \<Longrightarrow> handleGetRequest e web_root path = ([], Throws_filesystem_error)"
  by (auto simp: handleGetRequest_def Let_def split: option.splits)

lemma handleGetRequest_forbidden:
  assumes "fs_canonical e web_root = Some canonical_path"
    and "fs_canonical e (request_file_path web_root path) = Some requested_path"
    and "\<not> prefix canonical_path requested_path"
  shows "handleGetRequest e web_root path = ([Send (error_response e 403 ''Forbidden'')], Returns)"
  using assms by (simp add: handleGetRequest_def Let_def find_str_prefix sendError_def)

lemma handleGetRequest_inside:
  assumes "fs_canonical e web_root = Some canonical_path"
    and "fs_canonical e (request_file_path web_root path) = Some requested_path"
    and "prefix canonical_path requested_path"
  shows "handleGetRequest e web_root path =
     (case fs_open e (request_file_path web_root path) of
        None \<Rightarrow> ([Open (request_file_path web_root path),
                   Send (error_response e 404 ''Not Found'')], Returns)
      | Some file \<Rightarrow>
          (Open (request_file_path web_root path)
             # Send (file_headers e (request_file_path web_root path) (unat (tellg_end file)))
             # send_file_loop (file_bytes file), Returns))"
  using assms by (simp add: handleGetRequest_def Let_def find_str_prefix sendError_def split: option.splits)

lemmas request_eval =
  bytes_read_def crlf_def CR_def LF_def NUL_def getline_def parse_request_line_def
  extract_token_def isspace_def

lemma has_status_error_response: "has_status code [Send (error_response e (int code) msg)]"
  by (simp add: has_status_def sent_def error_response_def to_string_of_nat)

lemma not_403_not_found: "\<not> has_status 403 [Open p, Send (error_response e 404 msg)]"
  by (simp add: has_status_def sent_def error_response_def to_string_def digit_char_def)

lemma not_403_file: "\<not> has_status 403 (Open p # Send (file_headers e p n) # evs)"
  by (simp add: has_status_def sent_def file_headers_def digit_char_def)

lemma digit_value_digit_char: "d < 10 \<Longrightarrow> digit_value (digit_char d) = d"
proof -
  assume "d < 10"
  then have "d \<in> {0, 1, 2, 3, 4, 5, 6, 7, 8, 9}" by auto
  then show ?thesis
    by (auto simp: digit_value_def digit_char_def)
qed

lemma decimal_value_snoc: "decimal_value (s @ [c]) = 10 * decimal_value s + digit_value c"
  by (simp add: decimal_value_def)

lemma decimal_value_to_string_nat: "decimal_value (to_string_nat n) = n"
proof (induction n rule: to_string_nat.induct)
  case (1 n)
  show ?case
  proof (cases "n < 10")
    case True
    then show ?thesis
      by (simp add: to_string_nat.simps [of n] decimal_value_def digit_value_digit_char)
  next
    case False
    with 1 have "decimal_value (to_string_nat (n div 10)) = n div 10" by simp
    with False show ?thesis
      by (simp add: to_string_nat.simps [of n] decimal_value_snoc digit_value_digit_char)
  qed
qed

lemma chunk_count_step:
  fixes k l :: nat
  assumes "0 < k" and "0 < l"
  shows "(l + (k - 1)) div k = Suc ((l - k + (k - 1)) div k)"
proof (cases "l \<le> k")
  case True
  with assms have "(l + (k - 1)) div k = 1"
    by (intro div_nat_eqI) auto
  moreover from True assms have "(l - k + (k - 1)) div k = 0"
    by simp
  ultimately show ?thesis by simp
next
  case False
  then have "l + (k - 1) = (l - k + (k - 1)) + k" by simp
  then have "(l + (k - 1)) div k = ((l - k + (k - 1)) + k) div k" by simp
  also have "\<dots> = Suc ((l - k + (k - 1)) div k)"
    using assms(1) div_add_self2 [of k "l - k + (k - 1)"] by (simp del: add_diff_assoc add_diff_assoc2)
  finally show ?thesis .
qed

lemma send_file_loop_chunks:
  "send_file_loop content =
     map (\<lambda>i. Send (take 4096 (drop (i * 4096) content))) [0 ..< (length content + 4095) div 4096]"
proof (induction content rule: send_file_loop.induct)
  case (1 rest)
  show ?case
  proof (cases "take 4096 rest = []")
    case True
    then show ?thesis by simp
  next
    case False
    then have ne: "rest \<noteq> []" by auto
    let ?m = "(length (drop 4096 rest) + 4095) div 4096"
    from ne have n: "(length rest + 4095) div 4096 = Suc ?m"
      using chunk_count_step [of 4096 "length rest"] by simp
    from False 1 have IH: "send_file_loop (drop 4096 rest) =
        map (\<lambda>i. Send (take 4096 (drop (i * 4096) (drop 4096 rest)))) [0 ..< ?m]"
      by simp
    have "map (\<lambda>i. Send (take 4096 (drop (i * 4096) rest))) [0 ..< Suc ?m]
        = Send (take 4096 rest) # map (\<lambda>i. Send (take 4096 (drop (Suc i * 4096) rest))) [0 ..< ?m]"
      by (simp only: map_upt_Suc mult_0 drop_0)
    also have "\<dots> = Send (take 4096 rest) # send_file_loop (drop 4096 rest)"
      unfolding IH by (simp only: drop_drop mult_Suc add.commute)
    also have "\<dots> = send_file_loop rest"
      using False by (simp add: send_file_loop.simps [of rest])
    finally show ?thesis unfolding n by simp
  qed
qed

lemma has_status_file: "has_status 200 (Open p # Send (file_headers e p n) # evs)"
  by (simp add: has_status_def sent_def file_headers_def digit_char_def)

lemma Close_not_in_send_file_loop: "Close \<notin> set (send_file_loop content)"
  using chunks_send_file_loop [of Close content] by auto

lemma Close_not_in_handleGetRequest: "Close \<notin> set (fst (handleGetRequest e web_root path))"
  by (simp add: handleGetRequest_def Let_def sendError_def Close_not_in_send_file_loop
      split: option.splits)

lemma handleClient_returns_closes:
  assumes "snd (handleClient e web_root r) = Returns"
  shows "\<exists>evs. fst (handleClient e web_root r) = evs @ [Close] \<and> Close \<notin> set evs"
proof (cases "0 < bytes_read r")
  case False
  then show ?thesis by (simp add: handleClient_def)
next
  case True
  show ?thesis
  proof (cases "c_string (buffer_after_read r)")
    case None
    with True assms show ?thesis by (simp add: handleClient_def)
  next
    case (Some req)
    show ?thesis
    proof (cases "req_method (parse_request_line (getline req)) = ''GET''")
      case False
      with True Some show ?thesis by (simp add: handleClient_request)
    next
      case GET: True
      obtain evs c where g: "handleGetRequest e web_root (req_path (parse_request_line (getline req))) = (evs, c)"
        by (cases "handleGetRequest e web_root (req_path (parse_request_line (getline req)))")
      with Close_not_in_handleGetRequest [of e web_root "req_path (parse_request_line (getline req))"]
      have "Close \<notin> set evs" by simp
      with True Some GET g assms show ?thesis
        by (cases c) (simp_all add: handleClient_request)
    qed
  qed
qed

lemma mime_keys:
  "fst ` set mime_types =
     {''.html'', ''.css'', ''.js'', ''.json'', ''.png'', ''.jpg'', ''.jpeg'', ''.gif'', ''.txt''}"
  by (simp add: mime_types_def)

lemma mime_keys_lower: "k \<in> fst ` set mime_types \<Longrightarrow> map to_lower k = k"
  unfolding mime_keys by (auto simp: to_lower_def)

lemma mime_keys_no_slash: "k \<in> fst ` set mime_types \<Longrightarrow> CHR ''/'' \<notin> set k"
  unfolding mime_keys by auto

lemma getMimeType_unmapped:
  assumes "find_last_of CHR ''.'' path = Some i"
    and "substr path i \<notin> fst ` set mime_types"
  shows "getMimeType path = ''application/octet-stream''"
proof -
  from assms(2) have "map_of mime_types (substr path i) = None"
    by (simp add: map_of_eq_None_iff)
  with assms(1) show ?thesis
    by (simp add: getMimeType_def)
qed




lemma extract_token_Nil [simp]: "extract_token [] = ([], [])"
  by (simp add: extract_token_def)

lemma extract_token_empty:
  assumes "fst (extract_token s) = []"
  shows "snd (extract_token s) = []" and "ws_tokens s = []"
proof -
  define s' where "s' = dropWhile isspace s"
  have ex: "extract_token s = (takeWhile (\<lambda>c. \<not> isspace c) s', dropWhile (\<lambda>c. \<not> isspace c) s')"
    by (simp add: extract_token_def s'_def Let_def)
  have nil: "s' = []"
  proof (cases s')
    case Nil
    then show ?thesis .
  next
    case (Cons c cs)
    then have "dropWhile isspace s = c # cs" by (simp add: s'_def)
    then have "\<not> isspace c" by (simp add: dropWhile_eq_Cons_conv)
    with Cons assms ex show ?thesis by simp
  qed
  from nil ex show "snd (extract_token s) = []" by simp
  have "ws_tokens s = (if s' = [] then []
      else takeWhile (\<lambda>c. \<not> isspace c) s' # ws_tokens (dropWhile (\<lambda>c. \<not> isspace c) s'))"
    unfolding s'_def by (subst ws_tokens.simps) (simp add: Let_def)
  with nil show "ws_tokens s = []" by simp
qed

lemma ws_tokens_extract:
  assumes "fst (extract_token s) \<noteq> []"
  shows "ws_tokens s = fst (extract_token s) # ws_tokens (snd (extract_token s))"
proof -
  define s' where "s' = dropWhile isspace s"
  have ex: "extract_token s = (takeWhile (\<lambda>c. \<not> isspace c) s', dropWhile (\<lambda>c. \<not> isspace c) s')"
    by (simp add: extract_token_def s'_def Let_def)
  from assms ex have ne: "s' \<noteq> []" by auto
  have "ws_tokens s = (if s' = [] then []
      else takeWhile (\<lambda>c. \<not> isspace c) s' # ws_tokens (dropWhile (\<lambda>c. \<not> isspace c) s'))"
    unfolding s'_def by (subst ws_tokens.simps) (simp add: Let_def)
  with ne ex show ?thesis by simp
qed

lemma parse_request_line_tokens:
  "parse_request_line l =
     \<lparr>req_method = token_or_empty (ws_tokens l) 0,
      req_path = token_or_empty (ws_tokens l) 1,
      req_protocol = token_or_empty (ws_tokens l) 2\<rparr>"
proof -
  obtain m r1 where e1: "extract_token l = (m, r1)" by (cases "extract_token l")
  obtain p r2 where e2: "extract_token r1 = (p, r2)" by (cases "extract_token r1")
  obtain q r3 where e3: "extract_token r2 = (q, r3)" by (cases "extract_token r2")
  have parse: "parse_request_line l = \<lparr>req_method = m, req_path = p, req_protocol = q\<rparr>"
    by (simp add: parse_request_line_def e1 e2 e3)
  show ?thesis
  proof (cases "m = []")
    case True
    with e1 extract_token_empty [of l] have "r1 = []" "ws_tokens l = []" by simp_all
    with e2 e3 have "p = []" "q = []" by simp_all
    with True \<open>ws_tokens l = []\<close> parse show ?thesis
      by (simp add: token_or_empty_def)
  next
    case m: False
    with e1 ws_tokens_extract [of l] have t1: "ws_tokens l = m # ws_tokens r1" by simp
    show ?thesis
    proof (cases "p = []")
      case True
      with e2 extract_token_empty [of r1] have "r2 = []" "ws_tokens r1 = []" by simp_all
      with e3 have "q = []" by simp
      with True t1 \<open>ws_tokens r1 = []\<close> parse show ?thesis
        by (simp add: token_or_empty_def)
    next
      case p: False
      with e2 ws_tokens_extract [of r1] have t2: "ws_tokens r1 = p # ws_tokens r2" by simp
      show ?thesis
      proof (cases "q = []")
        case True
        with e3 extract_token_empty [of r2] have "ws_tokens r2 = []" by simp
        with True t1 t2 parse show ?thesis
          by (simp add: token_or_empty_def)
      next
        case False
        with e3 ws_tokens_extract [of r2] have "ws_tokens r2 = q # ws_tokens r3" by simp
        with t1 t2 parse show ?thesis
          by (simp add: token_or_empty_def)
      qed
    qed
  qed
qed

lemma request_file_path_empty: "request_file_path web_root [] = web_root"
  by (simp add: request_file_path_def)

lemma c_string_read:
  assumes "length d < 4096 \<or> NUL \<in> set (take 4096 d)"
  shows "c_string (buffer_after_read (Read_bytes d)) = Some (takeWhile (\<lambda>c. c \<noteq> NUL) (take 4096 d))"
proof (cases "NUL \<in> set (take 4096 d)")
  case True
  then show ?thesis
    by (simp add: c_string_def buffer_after_read_def takeWhile_append1)
next
  case False
  with assms have short: "length d < 4096" by simp
  then have "take 4096 d = d" by simp
  with c_string_short_read [OF short] show ?thesis by simp
qed

lemma handleClient_overread:
  assumes "4096 \<le> length d" and "NUL \<notin> set (take 4096 d)"
  shows "handleClient e web_root (Read_bytes d) = ([], Undefined_behaviour)"
proof -
  from assms(1) have "0 < bytes_read (Read_bytes d)"
    by (simp add: bytes_read_def)
  moreover from assms have "c_string (buffer_after_read (Read_bytes d)) = None"
    by (simp add: c_string_def buffer_after_read_def)
  ultimately show ?thesis
    by (simp add: handleClient_def)
qed

lemma find_last_of_append:
  "c \<notin> set ext \<Longrightarrow> find_last_of c (pre @ c # ext) = Some (length pre)"
proof (induction pre)
  case Nil
  then have "find_last_of c ext = None" by (simp add: find_last_of_None)
  then show ?case by simp
next
  case (Cons x pre)
  then show ?case by simp
qed

lemma handleClient_method_not_allowed:
  assumes "0 < bytes_read r"
    and "c_string (buffer_after_read r) = Some req"
    and "req_method (parse_request_line (getline req)) \<noteq> ''GET''"
  shows "handleClient e web_root r = ([Send method_not_allowed_response, Close], Returns)"
  using assms by (simp add: handleClient_request)

lemma getline_first_line:
  "LF \<notin> set line \<Longrightarrow> getline (line @ LF # rest) = line"
proof -
  assume "LF \<notin> set line"
  then have "takeWhile (\<lambda>c. c \<noteq> LF) line = line"
    by (induction line) auto
  then show ?thesis
    by (simp add: getline_def takeWhile_append_stop [of "\<lambda>c. c \<noteq> LF" LF line rest])
qed

lemma under_root_prefix: "under_root root cand \<Longrightarrow> prefix root cand"
  by (auto simp: under_root_def prefix_def)

section \<open>Claims\<close>

text \<open>
  C8. MIME lookup is a total, pure function of the path. A path without a dot gets
  application/octet-stream. A path with a dot is decided by the text after its last
  dot (the text \<open>ext\<close> in \<open>pre @ ''.'' @ ext\<close> that has no dot itself): html, css, js,
  json, png, jpg, jpeg, gif and txt get their content type, every other extension
  gets application/octet-stream.
\<close>

theorem C8_getMimeType_by_extension:
  "(CHR ''.'' \<notin> set path \<longrightarrow> getMimeType path = ''application/octet-stream'')
   \<and> (CHR ''.'' \<notin> set ext \<longrightarrow>
        getMimeType (pre @ CHR ''.'' # ext) =
          (if ext = ''html'' then ''text/html''
           else if ext = ''css'' then ''text/css''
           else if ext = ''js'' then ''application/javascript''
           else if ext = ''json'' then ''application/json''
           else if ext = ''png'' then ''image/png''
           else if ext = ''jpg'' then ''image/jpeg''
           else if ext = ''jpeg'' then ''image/jpeg''
           else if ext = ''gif'' then ''image/gif''
           else if ext = ''txt'' then ''text/plain''
           else ''application/octet-stream''))"
proof (intro conjI impI)
  assume "CHR ''.'' \<notin> set path"
  then have "find_last_of CHR ''.'' path = None"
    by (simp add: find_last_of_None)
  then show "getMimeType path = ''application/octet-stream''"
    by (simp add: getMimeType_def)
next
  assume "CHR ''.'' \<notin> set ext"
  then have dot: "find_last_of CHR ''.'' (pre @ CHR ''.'' # ext) = Some (length pre)"
    by (rule find_last_of_append)
  have sub: "substr (pre @ CHR ''.'' # ext) (length pre) = CHR ''.'' # ext"
    by (simp add: substr_def)
  show "getMimeType (pre @ CHR ''.'' # ext) =
          (if ext = ''html'' then ''text/html''
           else if ext = ''css'' then ''text/css''
           else if ext = ''js'' then ''application/javascript''
           else if ext = ''json'' then ''application/json''
           else if ext = ''png'' then ''image/png''
           else if ext = ''jpg'' then ''image/jpeg''
           else if ext = ''jpeg'' then ''image/jpeg''
           else if ext = ''gif'' then ''image/gif''
           else if ext = ''txt'' then ''text/plain''
           else ''application/octet-stream'')"
    unfolding getMimeType_def dot sub option.case
    by (auto simp: mime_types_def)
qed

theorem C8_getMimeType_by_extension_witness:
  "getMimeType ''/README'' = ''application/octet-stream''
   \<and> getMimeType ''/a.b.json'' = ''application/json''
   \<and> getMimeType ''/index.html'' = ''text/html''
   \<and> getMimeType ''/x.bin'' = ''application/octet-stream''"
proof -
  have a: "CHR ''.'' \<notin> set ''/README''" "CHR ''.'' \<notin> set ''json''"
    "CHR ''.'' \<notin> set ''html''" "CHR ''.'' \<notin> set ''bin''"
    by simp_all
  from C8_getMimeType_by_extension [of "''/README''" "''json''" "''/a.b''"]
    C8_getMimeType_by_extension [of "''/README''" "''html''" "''/index''"]
    C8_getMimeType_by_extension [of "''/README''" "''bin''" "''/x''"] a
  show ?thesis by simp
qed

text \<open>
  C4. Every request whose method token is not \<open>GET\<close> is meant to get the fixed 405
  response, whose body \<open>Method Not Supported\<close> with its line feed has the 21 bytes the
  literal declares. The handler does so for every request it reads as a C string
  (\<open>handleClient_method_not_allowed\<close>). A read that fills all 4096 bytes of the buffer
  leaves no terminating zero byte, and \<^verbatim>\<open>std::string request(buffer)\<close> then reads past
  the end of the array: for a POST request with a body of 4096 bytes the run is not
  the 405 response but the undefined over-read.
\<close>

theorem C4_full_buffer_overread:
  "req_method (parse_request_line (getline
       (''POST /upload HTTP/1.1'' @ crlf @ ''Content-Length: 4096'' @ crlf @ crlf
          @ replicate 4096 (CHR ''a'')))) = ''POST''
   \<and> handleClient www_env www_root (Read_bytes
       (''POST /upload HTTP/1.1'' @ crlf @ ''Content-Length: 4096'' @ crlf @ crlf
          @ replicate 4096 (CHR ''a''))) = ([], Undefined_behaviour)"
proof -
  define body where "body = replicate 4096 (CHR ''a'')"
  let ?d = "''POST /upload HTTP/1.1'' @ crlf @ ''Content-Length: 4096'' @ crlf @ crlf @ body"
  have len: "length body = 4096" and nul: "NUL \<notin> set body"
    by (simp_all add: body_def NUL_def)
  have "?d = (''POST /upload HTTP/1.1'' @ [CR]) @ LF # (''Content-Length: 4096'' @ crlf @ crlf @ body)"
    by (simp add: crlf_def)
  moreover have "LF \<notin> set (''POST /upload HTTP/1.1'' @ [CR])"
    by (simp add: LF_def CR_def)
  ultimately have line: "getline ?d = ''POST /upload HTTP/1.1'' @ [CR]"
    using getline_first_line by metis
  have m: "req_method (parse_request_line (getline ?d)) = ''POST''"
    unfolding line by (simp add: parse_request_line_def extract_token_def isspace_def CR_def)
  have "4096 \<le> length ?d"
    by (simp add: len)
  moreover have "NUL \<notin> set ?d"
    using nul by (simp add: crlf_def CR_def LF_def NUL_def)
  then have "NUL \<notin> set (take 4096 ?d)"
    using set_take_subset [of 4096 ?d] by blast
  ultimately have "handleClient www_env www_root (Read_bytes ?d) = ([], Undefined_behaviour)"
    by (rule handleClient_overread)
  with m show ?thesis
    unfolding body_def by blast
qed

text \<open>
  C2. Containment is decided on strings. When the document root and the requested
  file path both canonicalise, \<open>handleGetRequest\<close> answers 403 Forbidden and opens no
  file exactly when the canonical root is not a string prefix of the canonical
  candidate; when it is a prefix, the file is opened and the response is not 403.
\<close>

theorem C2_forbidden_outside_root:
  assumes "fs_canonical e web_root = Some canonical_path"
    and "fs_canonical e (request_file_path web_root path) = Some requested_path"
  shows "(\<not> prefix canonical_path requested_path \<longrightarrow>
            handleGetRequest e web_root path = ([Send (error_response e 403 ''Forbidden'')], Returns)
            \<and> has_status 403 (fst (handleGetRequest e web_root path))
            \<and> opened (fst (handleGetRequest e web_root path)) = [])
       \<and> (prefix canonical_path requested_path \<longrightarrow>
            opened (fst (handleGetRequest e web_root path)) = [request_file_path web_root path]
            \<and> \<not> has_status 403 (fst (handleGetRequest e web_root path)))"
proof (cases "prefix canonical_path requested_path")
  case False
  with handleGetRequest_forbidden [OF assms] has_status_error_response [of 403 e "''Forbidden''"]
  show ?thesis
    by (simp add: opened_def)
next
  case True
  show ?thesis
  proof (cases "fs_open e (request_file_path web_root path)")
    case None
    with True handleGetRequest_inside [OF assms] not_403_not_found show ?thesis
      by (simp add: opened_def)
  next
    case (Some strm)
    with True handleGetRequest_inside [OF assms] not_403_file
      opened_send_file_loop [of "file_bytes strm"] show ?thesis
      by (simp add: opened_def)
  qed
qed

theorem C2_forbidden_outside_root_witness:
  "handleGetRequest www_env www_root ''/../../etc/passwd''
     = ([Send (error_response www_env 403 ''Forbidden'')], Returns)
   \<and> opened (fst (handleGetRequest www_env www_root ''/index.html'')) = [''/srv/www/index.html'']"
proof -
  have r: "fs_canonical www_env www_root = Some ''/srv/www''"
    by (simp add: www_env_def www_root_def)
  have a: "fs_canonical www_env (request_file_path www_root ''/../../etc/passwd'') = Some ''/etc/passwd''"
    by (simp add: www_env_def www_root_def request_file_path_def)
  have b: "fs_canonical www_env (request_file_path www_root ''/index.html'') = Some ''/srv/www/index.html''"
    by (simp add: www_env_def www_root_def request_file_path_def)
  have c: "\<not> prefix ''/srv/www'' ''/etc/passwd''" "prefix ''/srv/www'' ''/srv/www/index.html''"
    by simp_all
  have d: "request_file_path www_root ''/index.html'' = ''/srv/www/index.html''"
    by (simp add: www_root_def request_file_path_def)
  from C2_forbidden_outside_root [OF r a] C2_forbidden_outside_root [OF r b] c d
  show ?thesis by simp
qed

text \<open>
  A candidate outside the document root can pass the prefix test: for the root
  \<open>/srv/www\<close> the request path \<open>-secrets/x.txt\<close> names \<open>/srv/www-secrets/x.txt\<close>, which is
  not under the root by path components; the file is opened and sent with status 200.
\<close>

theorem C2_sibling_directory_counterexample:
  "fs_canonical www_env www_root = Some ''/srv/www''
   \<and> fs_canonical www_env (request_file_path www_root ''-secrets/x.txt'') = Some ''/srv/www-secrets/x.txt''
   \<and> \<not> under_root ''/srv/www'' ''/srv/www-secrets/x.txt''
   \<and> \<not> has_status 403 (fst (handleGetRequest www_env www_root ''-secrets/x.txt''))
   \<and> has_status 200 (fst (handleGetRequest www_env www_root ''-secrets/x.txt''))
   \<and> opened (fst (handleGetRequest www_env www_root ''-secrets/x.txt'')) = [''/srv/www-secrets/x.txt'']
   \<and> sent (fst (handleGetRequest www_env www_root ''-secrets/x.txt''))
       = file_headers www_env ''/srv/www-secrets/x.txt'' 7 @ ''secret\<newline>''"
proof -
  have fp: "request_file_path www_root ''-secrets/x.txt'' = ''/srv/www-secrets/x.txt''"
    by (simp add: www_root_def request_file_path_def)
  have r: "fs_canonical www_env www_root = Some ''/srv/www''"
    by (simp add: www_env_def www_root_def)
  have q: "fs_canonical www_env (request_file_path www_root ''-secrets/x.txt'') = Some ''/srv/www-secrets/x.txt''"
    unfolding fp by (simp add: www_env_def)
  have p: "prefix ''/srv/www'' ''/srv/www-secrets/x.txt''"
    by simp
  have u: "\<not> under_root ''/srv/www'' ''/srv/www-secrets/x.txt''"
    by (simp add: under_root_def)
  have f: "fs_open www_env ''/srv/www-secrets/x.txt''
      = Some \<lparr>tellg_end = 7, file_bytes = ''secret\<newline>''\<rparr>"
    by (simp add: www_env_def)
  have s: "send_file_loop ''secret\<newline>'' = [Send ''secret\<newline>'']"
    by (simp add: send_file_loop_one_chunk)
  have g: "handleGetRequest www_env www_root ''-secrets/x.txt'' =
      ([Open ''/srv/www-secrets/x.txt'',
        Send (file_headers www_env ''/srv/www-secrets/x.txt'' 7),
        Send ''secret\<newline>''], Returns)"
    using handleGetRequest_inside [OF r q p] f s unfolding fp by simp
  have n403: "\<not> has_status 403 (fst (handleGetRequest www_env www_root ''-secrets/x.txt''))"
    unfolding g fst_conv by (rule not_403_file)
  have s200: "has_status 200 (fst (handleGetRequest www_env www_root ''-secrets/x.txt''))"
    unfolding g fst_conv by (rule has_status_file)
  have o: "opened (fst (handleGetRequest www_env www_root ''-secrets/x.txt'')) = [''/srv/www-secrets/x.txt'']"
    unfolding g by (simp add: opened_def)
  have b: "sent (fst (handleGetRequest www_env www_root ''-secrets/x.txt''))
       = file_headers www_env ''/srv/www-secrets/x.txt'' 7 @ ''secret\<newline>''"
    unfolding g by (simp add: sent_def)
  from r q u n403 s200 o b show ?thesis by blast
qed

text \<open>
  C3. For every file that opens, whose path canonicalises to a string that begins with
  the canonical document root, and whose end position as \<^verbatim>\<open>tellg\<close> reports it equals
  the number of bytes reading it delivers (every regular file), \<open>handleGetRequest\<close>
  opens the file, sends one header block and then the body. The header block is the
  200 response with a \<open>Content-Length\<close> that is the decimal form of the byte count of the
  file; the bytes sent after it are exactly the contents of the file, in consecutive
  blocks of 4096 bytes, the last one possibly shorter.
\<close>

theorem C3_file_delivery:
  assumes "fs_canonical e web_root = Some canonical_path"
    and "fs_canonical e (request_file_path web_root path) = Some requested_path"
    and "prefix canonical_path requested_path"
    and "fs_open e (request_file_path web_root path) = Some strm"
    and "unat (tellg_end strm) = length (file_bytes strm)"
  shows "handleGetRequest e web_root path =
           (Open (request_file_path web_root path)
              # Send (file_headers e (request_file_path web_root path) (length (file_bytes strm)))
              # send_file_loop (file_bytes strm), Returns)
       \<and> has_status 200 (fst (handleGetRequest e web_root path))
       \<and> file_headers e (request_file_path web_root path) (length (file_bytes strm)) =
             ''HTTP/1.1 200 OK'' @ crlf
             @ ''Content-Type: '' @ getMimeType (request_file_path web_root path) @ crlf
             @ ''Content-Length: '' @ to_string_nat (length (file_bytes strm)) @ crlf
             @ ''Date: '' @ getTimeString e @ crlf
             @ ''Server: CPP-HTTP-Server/1.0'' @ crlf
             @ ''Connection: close'' @ crlf @ crlf
       \<and> decimal_value (to_string_nat (length (file_bytes strm))) = length (file_bytes strm)
       \<and> sent (fst (handleGetRequest e web_root path)) =
             file_headers e (request_file_path web_root path) (length (file_bytes strm))
             @ file_bytes strm
       \<and> send_file_loop (file_bytes strm) =
             map (\<lambda>i. Send (take 4096 (drop (i * 4096) (file_bytes strm))))
               [0 ..< (length (file_bytes strm) + 4095) div 4096]"
proof -
  let ?fp = "request_file_path web_root path"
  let ?content = "file_bytes strm"
  have run: "handleGetRequest e web_root path =
      (Open ?fp # Send (file_headers e ?fp (length ?content)) # send_file_loop ?content, Returns)"
    using handleGetRequest_inside [OF assms(1-3)] assms(4,5) by simp
  have "sent (Open ?fp # Send (file_headers e ?fp (length ?content)) # send_file_loop ?content)
      = file_headers e ?fp (length ?content) @ sent (send_file_loop ?content)"
    by (simp add: sent_def)
  then have bytes: "sent (fst (handleGetRequest e web_root path)) =
      file_headers e ?fp (length ?content) @ ?content"
    by (simp add: run sent_send_file_loop)
  have status: "has_status 200 (fst (handleGetRequest e web_root path))"
    by (simp add: run has_status_file)
  have hdr: "file_headers e ?fp (length ?content) =
             ''HTTP/1.1 200 OK'' @ crlf
             @ ''Content-Type: '' @ getMimeType ?fp @ crlf
             @ ''Content-Length: '' @ to_string_nat (length ?content) @ crlf
             @ ''Date: '' @ getTimeString e @ crlf
             @ ''Server: CPP-HTTP-Server/1.0'' @ crlf
             @ ''Connection: close'' @ crlf @ crlf"
    by (simp add: file_headers_def)
  from run status hdr bytes decimal_value_to_string_nat [of "length ?content"]
    send_file_loop_chunks [of ?content]
  show ?thesis by blast
qed

theorem C3_file_delivery_witness:
  "handleGetRequest www_env www_root ''/index.html'' =
     ([Open ''/srv/www/index.html'',
       Send (''HTTP/1.1 200 OK'' @ crlf
             @ ''Content-Type: text/html'' @ crlf
             @ ''Content-Length: 10'' @ crlf
             @ ''Date: Wed, 21 Oct 2024 07:28:00 GMT'' @ crlf
             @ ''Server: CPP-HTTP-Server/1.0'' @ crlf
             @ ''Connection: close'' @ crlf @ crlf),
       Send ''hello1234\<newline>''], Returns)"
proof -
  let ?s = "\<lparr>tellg_end = 10, file_bytes = ''hello1234\<newline>''\<rparr>"
  have r: "fs_canonical www_env www_root = Some ''/srv/www''"
    by (simp add: www_env_def www_root_def)
  have fp: "request_file_path www_root ''/index.html'' = ''/srv/www/index.html''"
    by (simp add: www_root_def request_file_path_def)
  have a: "fs_canonical www_env (request_file_path www_root ''/index.html'') = Some ''/srv/www/index.html''"
    by (simp add: fp) (simp add: www_env_def)
  have p: "prefix ''/srv/www'' ''/srv/www/index.html''"
    by simp
  have f: "fs_open www_env (request_file_path www_root ''/index.html'') = Some ?s"
    by (simp add: fp) (simp add: www_env_def)
  have len: "length ''hello1234\<newline>'' = 10"
    by simp
  have l: "unat (tellg_end ?s) = length (file_bytes ?s)"
    by simp
  have m: "getMimeType ''/srv/www/index.html'' = ''text/html''"
    by (simp add: getMimeType_def mime_types_def substr_def)
  have hdr: "file_headers www_env ''/srv/www/index.html'' 10 =
             ''HTTP/1.1 200 OK'' @ crlf
             @ ''Content-Type: text/html'' @ crlf
             @ ''Content-Length: 10'' @ crlf
             @ ''Date: Wed, 21 Oct 2024 07:28:00 GMT'' @ crlf
             @ ''Server: CPP-HTTP-Server/1.0'' @ crlf
             @ ''Connection: close'' @ crlf @ crlf"
    by (simp add: file_headers_def m digit_char_def getTimeString_def www_env_def)
  have s: "send_file_loop ''hello1234\<newline>'' = [Send ''hello1234\<newline>'']"
    by (simp add: send_file_loop_one_chunk)
  from C3_file_delivery [OF r a p f l]
  have "handleGetRequest www_env www_root ''/index.html'' =
           (Open (request_file_path www_root ''/index.html'')
              # Send (file_headers www_env (request_file_path www_root ''/index.html'')
                       (length (file_bytes ?s)))
              # send_file_loop (file_bytes ?s), Returns)"
    by (rule conjunct1)
  then show ?thesis
    unfolding fp file_stream.select_convs s len hdr .
qed

text \<open>
  The \<open>Content-Length\<close> is the end position of the stream, not the number of bytes
  sent: the file \<open>uptime\<close> under the root opens, reports 4096 as its end position and
  delivers three bytes; the response declares 4096 and carries a body of three bytes.
\<close>

theorem C3_size_differs_counterexample:
  "fs_canonical www_env (request_file_path www_root ''/uptime'') = Some ''/srv/www/uptime''
   \<and> under_root ''/srv/www'' ''/srv/www/uptime''
   \<and> fs_open www_env (request_file_path www_root ''/uptime'')
       = Some \<lparr>tellg_end = 4096, file_bytes = ''up\<newline>''\<rparr>
   \<and> handleGetRequest www_env www_root ''/uptime'' =
       ([Open ''/srv/www/uptime'',
         Send (''HTTP/1.1 200 OK'' @ crlf
               @ ''Content-Type: application/octet-stream'' @ crlf
               @ ''Content-Length: 4096'' @ crlf
               @ ''Date: Wed, 21 Oct 2024 07:28:00 GMT'' @ crlf
               @ ''Server: CPP-HTTP-Server/1.0'' @ crlf
               @ ''Connection: close'' @ crlf @ crlf),
         Send ''up\<newline>''], Returns)
   \<and> length ''up\<newline>'' \<noteq> 4096"
proof -
  let ?s = "\<lparr>tellg_end = 4096, file_bytes = ''up\<newline>''\<rparr>"
  have fp: "request_file_path www_root ''/uptime'' = ''/srv/www/uptime''"
    by (simp add: www_root_def request_file_path_def)
  have r: "fs_canonical www_env www_root = Some ''/srv/www''"
    by (simp add: www_env_def www_root_def)
  have q: "fs_canonical www_env (request_file_path www_root ''/uptime'') = Some ''/srv/www/uptime''"
    unfolding fp by (simp add: www_env_def)
  have p: "prefix ''/srv/www'' ''/srv/www/uptime''"
    by simp
  have u: "under_root ''/srv/www'' ''/srv/www/uptime''"
    by (simp add: under_root_def)
  have f: "fs_open www_env (request_file_path www_root ''/uptime'') = Some ?s"
    unfolding fp by (simp add: www_env_def)
  have m: "getMimeType ''/srv/www/uptime'' = ''application/octet-stream''"
    by (simp add: getMimeType_def)
  have hdr: "file_headers www_env ''/srv/www/uptime'' 4096 =
             ''HTTP/1.1 200 OK'' @ crlf
             @ ''Content-Type: application/octet-stream'' @ crlf
             @ ''Content-Length: 4096'' @ crlf
             @ ''Date: Wed, 21 Oct 2024 07:28:00 GMT'' @ crlf
             @ ''Server: CPP-HTTP-Server/1.0'' @ crlf
             @ ''Connection: close'' @ crlf @ crlf"
    by (simp add: file_headers_def m digit_char_def getTimeString_def www_env_def)
  have s: "send_file_loop ''up\<newline>'' = [Send ''up\<newline>'']"
    by (simp add: send_file_loop_one_chunk)
  have "handleGetRequest www_env www_root ''/uptime'' =
      ([Open ''/srv/www/uptime'', Send (file_headers www_env ''/srv/www/uptime'' 4096),
        Send ''up\<newline>''], Returns)"
    using handleGetRequest_inside [OF r q p] f s unfolding fp by simp
  then have g: "handleGetRequest www_env www_root ''/uptime'' =
       ([Open ''/srv/www/uptime'',
         Send (''HTTP/1.1 200 OK'' @ crlf
               @ ''Content-Type: application/octet-stream'' @ crlf
               @ ''Content-Length: 4096'' @ crlf
               @ ''Date: Wed, 21 Oct 2024 07:28:00 GMT'' @ crlf
               @ ''Server: CPP-HTTP-Server/1.0'' @ crlf
               @ ''Connection: close'' @ crlf @ crlf),
         Send ''up\<newline>''], Returns)"
    unfolding hdr .
  have n: "length ''up\<newline>'' \<noteq> 4096"
    by simp
  from q u f g n show ?thesis by blast
qed

text \<open>
  C7. A GET request for \<open>/\<close> is resolved and answered as a GET request for
  \<open>/index.html\<close>: both name the same file path before anything is asked of the file
  system, so \<open>handleGetRequest\<close> gives the same run for both, and so does
  \<open>handleClient\<close> for any two requests whose request lines parse to GET with these
  two paths.
\<close>

theorem C7_root_is_index:
  "request_file_path web_root ''/'' = request_file_path web_root ''/index.html''
   \<and> handleGetRequest e web_root ''/'' = handleGetRequest e web_root ''/index.html''
   \<and> (0 < bytes_read r1 \<and> c_string (buffer_after_read r1) = Some req1
        \<and> req_method (parse_request_line (getline req1)) = ''GET''
        \<and> req_path (parse_request_line (getline req1)) = ''/''
        \<and> 0 < bytes_read r2 \<and> c_string (buffer_after_read r2) = Some req2
        \<and> req_method (parse_request_line (getline req2)) = ''GET''
        \<and> req_path (parse_request_line (getline req2)) = ''/index.html''
      \<longrightarrow> handleClient e web_root r1 = handleClient e web_root r2)"
proof -
  have p: "request_file_path web_root ''/'' = request_file_path web_root ''/index.html''"
    by (simp add: request_file_path_def)
  then have g: "handleGetRequest e web_root ''/'' = handleGetRequest e web_root ''/index.html''"
    by (simp add: handleGetRequest_def)
  from p g show ?thesis
    by (auto simp: handleClient_request)
qed

theorem C7_root_is_index_witness:
  "handleClient www_env www_root (Read_bytes (''GET / HTTP/1.1'' @ crlf @ crlf))
     = handleClient www_env www_root (Read_bytes (''GET /index.html HTTP/1.1'' @ crlf @ crlf))"
proof -
  let ?d1 = "''GET / HTTP/1.1'' @ crlf @ crlf"
  let ?d2 = "''GET /index.html HTTP/1.1'' @ crlf @ crlf"
  have a: "0 < bytes_read (Read_bytes ?d1)" "0 < bytes_read (Read_bytes ?d2)"
    by (simp_all add: bytes_read_def)
  have b: "c_string (buffer_after_read (Read_bytes ?d1)) = Some ?d1"
    "c_string (buffer_after_read (Read_bytes ?d2)) = Some ?d2"
    by (simp_all add: c_string_short_read crlf_def CR_def LF_def NUL_def)
  have c: "req_method (parse_request_line (getline ?d1)) = ''GET''"
    "req_path (parse_request_line (getline ?d1)) = ''/''"
    "req_method (parse_request_line (getline ?d2)) = ''GET''"
    "req_path (parse_request_line (getline ?d2)) = ''/index.html''"
    by (simp_all add: request_eval)
  from C7_root_is_index [of www_root www_env "Read_bytes ?d1" ?d1 "Read_bytes ?d2" ?d2] a b c
  show ?thesis by blast
qed

text \<open>
  C1. A GET request whose path fails to canonicalise is meant to be answered with 404.
  In the code \<^verbatim>\<open>std::filesystem::canonical\<close> throws before the check that sends the 404,
  and nothing catches the exception: for the document tree \<open>www_env\<close>, in which
  \<open>/missing.txt\<close> does not exist, the handler sends nothing and ends with the uncaught
  exception, which leaves \<open>handleClient\<close>, the entry function of the connection's thread.
\<close>

theorem C1_missing_file_throws:
  "fs_canonical www_env (request_file_path www_root ''/missing.txt'') = None
   \<and> handleGetRequest www_env www_root ''/missing.txt'' = ([], Throws_filesystem_error)
   \<and> handleClient www_env www_root (Read_bytes (''GET /missing.txt HTTP/1.1'' @ crlf @ crlf))
       = ([], Throws_filesystem_error)
   \<and> \<not> has_status 404
         (fst (handleClient www_env www_root (Read_bytes (''GET /missing.txt HTTP/1.1'' @ crlf @ crlf))))"
proof -
  let ?d = "''GET /missing.txt HTTP/1.1'' @ crlf @ crlf"
  have n: "fs_canonical www_env (request_file_path www_root ''/missing.txt'') = None"
    by (simp add: request_file_path_def www_root_def www_env_def)
  then have g: "handleGetRequest www_env www_root ''/missing.txt'' = ([], Throws_filesystem_error)"
    by (simp add: handleGetRequest_not_canonical)
  have a: "0 < bytes_read (Read_bytes ?d)"
    by (simp add: bytes_read_def)
  have b: "c_string (buffer_after_read (Read_bytes ?d)) = Some ?d"
    by (simp add: c_string_short_read crlf_def CR_def LF_def NUL_def)
  have c: "req_method (parse_request_line (getline ?d)) = ''GET''"
    "req_path (parse_request_line (getline ?d)) = ''/missing.txt''"
    by (simp_all add: request_eval)
  have h: "handleClient www_env www_root (Read_bytes ?d) = ([], Throws_filesystem_error)"
    unfolding handleClient_request [OF a b] c g by simp
  have "\<not> has_status 404 []"
    by (simp add: has_status_def sent_def)
  with n g h show ?thesis by simp
qed

text \<open>
  C6. The connection is meant to be closed on every path of the handler. Every path on
  which \<open>handleClient\<close> returns ends with the close, and a failed or empty read gives
  the close alone (\<open>handleClient_returns_closes\<close>, \<open>handleClient_not_read\<close>). On the
  path of a GET request for a file that does not exist the exception of the
  canonicalisation leaves \<open>handleClient\<close> before its \<^verbatim>\<open>close(client_socket)\<close>: the run
  has no close event.
\<close>

theorem C6_missing_file_not_closed:
  "Close \<notin> set (fst (handleClient www_env www_root
                         (Read_bytes (''GET /nothing.html HTTP/1.0'' @ crlf @ crlf))))
   \<and> snd (handleClient www_env www_root
             (Read_bytes (''GET /nothing.html HTTP/1.0'' @ crlf @ crlf))) = Throws_filesystem_error"
proof -
  let ?d = "''GET /nothing.html HTTP/1.0'' @ crlf @ crlf"
  have n: "fs_canonical www_env (request_file_path www_root ''/nothing.html'') = None"
    by (simp add: request_file_path_def www_root_def www_env_def)
  then have g: "handleGetRequest www_env www_root ''/nothing.html'' = ([], Throws_filesystem_error)"
    by (simp add: handleGetRequest_not_canonical)
  have a: "0 < bytes_read (Read_bytes ?d)"
    by (simp add: bytes_read_def)
  have b: "c_string (buffer_after_read (Read_bytes ?d)) = Some ?d"
    by (simp add: c_string_short_read crlf_def CR_def LF_def NUL_def)
  have c: "req_method (parse_request_line (getline ?d)) = ''GET''"
    "req_path (parse_request_line (getline ?d)) = ''/nothing.html''"
    by (simp_all add: request_eval)
  have "handleClient www_env www_root (Read_bytes ?d) = ([], Throws_filesystem_error)"
    unfolding handleClient_request [OF a b] c g by simp
  then show ?thesis by simp
qed

text \<open>
  C10. The extension is matched exactly, byte for byte, on the text from the last dot
  of the whole path string. A path with a dot gets a content type of the table only
  when that text is one of the table's keys. So a path whose extension differs from
  a key only in letter case (such as \<open>/page.HTML\<close>) and a path whose last dot lies in
  a directory component (a \<open>/\<close> follows it) both get application/octet-stream.
\<close>

theorem C10_extension_match_exact:
  assumes "find_last_of CHR ''.'' path = Some i"
  shows "(substr path i \<notin> fst ` set mime_types
            \<longrightarrow> getMimeType path = ''application/octet-stream'')
       \<and> ((\<exists>k \<in> fst ` set mime_types. differs_only_in_case (substr path i) k)
            \<longrightarrow> getMimeType path = ''application/octet-stream'')
       \<and> (CHR ''/'' \<in> set (substr path i)
            \<longrightarrow> getMimeType path = ''application/octet-stream'')
       \<and> (substr path i \<in> fst ` set mime_types
            \<longrightarrow> map_of mime_types (substr path i) = Some (getMimeType path))"
proof (intro conjI impI)
  assume "substr path i \<notin> fst ` set mime_types"
  with assms show "getMimeType path = ''application/octet-stream''"
    by (rule getMimeType_unmapped)
next
  assume "\<exists>k \<in> fst ` set mime_types. differs_only_in_case (substr path i) k"
  then obtain k where k: "k \<in> fst ` set mime_types"
    and ne: "substr path i \<noteq> k"
    and eq: "map to_lower (substr path i) = map to_lower k"
    by (auto simp: differs_only_in_case_def)
  have "substr path i \<notin> fst ` set mime_types"
  proof
    assume "substr path i \<in> fst ` set mime_types"
    then have "map to_lower (substr path i) = substr path i"
      by (rule mime_keys_lower)
    with eq mime_keys_lower [OF k] ne show False by simp
  qed
  with assms show "getMimeType path = ''application/octet-stream''"
    by (rule getMimeType_unmapped)
next
  assume "CHR ''/'' \<in> set (substr path i)"
  with mime_keys_no_slash [of "substr path i"]
  have "substr path i \<notin> fst ` set mime_types" by blast
  with assms show "getMimeType path = ''application/octet-stream''"
    by (rule getMimeType_unmapped)
next
  assume "substr path i \<in> fst ` set mime_types"
  then obtain t where "map_of mime_types (substr path i) = Some t"
    by (metis map_of_eq_None_iff not_Some_eq)
  with assms show "map_of mime_types (substr path i) = Some (getMimeType path)"
    by (simp add: getMimeType_def)
qed

theorem C10_extension_match_exact_witness:
  "getMimeType ''/page.HTML'' = ''application/octet-stream''
   \<and> getMimeType ''/srv/www.d/style'' = ''application/octet-stream''
   \<and> getMimeType ''/page.html'' = ''text/html''"
proof -
  have a: "find_last_of CHR ''.'' ''/page.HTML'' = Some 5"
    and b: "find_last_of CHR ''.'' ''/srv/www.d/style'' = Some 8"
    and c: "find_last_of CHR ''.'' ''/page.html'' = Some 5"
    by simp_all
  have a': "\<exists>k \<in> fst ` set mime_types. differs_only_in_case (substr ''/page.HTML'' 5) k"
    by (rule bexI [of _ "''.html''"]) (simp_all add: differs_only_in_case_def substr_def to_lower_def mime_keys)
  have b': "CHR ''/'' \<in> set (substr ''/srv/www.d/style'' 8)"
    by (simp add: substr_def)
  have c': "substr ''/page.html'' 5 \<in> fst ` set mime_types"
    by (simp add: substr_def mime_keys)
  have c'': "map_of mime_types (substr ''/page.html'' 5) = Some ''text/html''"
    by (simp add: substr_def mime_types_def)
  from C10_extension_match_exact [OF a] C10_extension_match_exact [OF b]
    C10_extension_match_exact [OF c] a' b' c' c''
  show ?thesis by simp
qed


text \<open>
  C5. Take a read that leaves a zero byte in the buffer (fewer than 4096 bytes, or a
  zero byte among them), so that the request is the buffer up to its first zero
  byte. When the first line of the request has fewer than three white-space
  separated tokens, the missing fields are empty: the fields are the tokens in
  order, the protocol is empty, and the protocol is never looked at. The request is
  then handled on method and path alone: the 405 response when the method is missing
  or is not GET, and otherwise exactly what \<open>handleGetRequest\<close> does for the path,
  followed by the close when it returns. With the single token GET the path is
  empty and the file path resolved is the document root itself.
\<close>

theorem C5_short_request_line:
  assumes "d \<noteq> []"
    and "length d < 4096 \<or> NUL \<in> set (take 4096 d)"
    and "req = takeWhile (\<lambda>c. c \<noteq> NUL) (take 4096 d)"
    and "length (ws_tokens (getline req)) < 3"
  shows "parse_request_line (getline req) =
           \<lparr>req_method = token_or_empty (ws_tokens (getline req)) 0,
            req_path = token_or_empty (ws_tokens (getline req)) 1,
            req_protocol = []\<rparr>
       \<and> handleClient e web_root (Read_bytes d) =
           (if token_or_empty (ws_tokens (getline req)) 0 = ''GET'' then
              (case handleGetRequest e web_root (token_or_empty (ws_tokens (getline req)) 1) of
                 (evs, Returns) \<Rightarrow> (evs @ [Close], Returns)
               | (evs, c) \<Rightarrow> (evs, c))
            else ([Send method_not_allowed_response, Close], Returns))
       \<and> (ws_tokens (getline req) = [''GET''] \<longrightarrow>
            request_file_path web_root (token_or_empty (ws_tokens (getline req)) 1) = web_root)"
proof -
  let ?ts = "ws_tokens (getline req)"
  from assms(1) have rd: "0 < bytes_read (Read_bytes d)"
    by (simp add: bytes_read_def)
  from c_string_read [OF assms(2)] assms(3)
  have cs: "c_string (buffer_after_read (Read_bytes d)) = Some req"
    by simp
  from assms(4) have parse: "parse_request_line (getline req) =
      \<lparr>req_method = token_or_empty ?ts 0, req_path = token_or_empty ?ts 1, req_protocol = []\<rparr>"
    by (simp add: parse_request_line_tokens [of "getline req"] token_or_empty_def)
  have hc: "handleClient e web_root (Read_bytes d) =
     (if token_or_empty ?ts 0 = ''GET'' then
        (case handleGetRequest e web_root (token_or_empty ?ts 1) of
           (evs, Returns) \<Rightarrow> (evs @ [Close], Returns)
         | (evs, c) \<Rightarrow> (evs, c))
      else ([Send method_not_allowed_response, Close], Returns))"
    unfolding handleClient_request [OF rd cs] parse by simp
  have root: "?ts = [''GET''] \<longrightarrow> request_file_path web_root (token_or_empty ?ts 1) = web_root"
    by (simp add: token_or_empty_def request_file_path_empty)
  from parse hc root show ?thesis by blast
qed

theorem C5_short_request_line_witness:
  "handleClient www_env www_root (Read_bytes ''POST\<newline>'')
     = ([Send method_not_allowed_response, Close], Returns)
   \<and> handleClient www_env www_root (Read_bytes ''GET\<newline>'')
     = ([Open ''/srv/www'',
         Send (file_headers www_env ''/srv/www'' 9223372036854775807),
         Close], Returns)
   \<and> handleClient www_env www_root (Read_bytes ''GET /missing.txt\<newline>'')
     = ([], Throws_filesystem_error)"
proof -
  let ?d1 = "''POST\<newline>''" and ?d2 = "''GET\<newline>''" and ?d3 = "''GET /missing.txt\<newline>''"
  have n: "?d1 \<noteq> []" "?d2 \<noteq> []" "?d3 \<noteq> []"
    by simp_all
  have s: "length ?d1 < 4096 \<or> NUL \<in> set (take 4096 ?d1)"
    "length ?d2 < 4096 \<or> NUL \<in> set (take 4096 ?d2)"
    "length ?d3 < 4096 \<or> NUL \<in> set (take 4096 ?d3)"
    by simp_all
  have q1: "?d1 = takeWhile (\<lambda>c. c \<noteq> NUL) (take 4096 ?d1)"
    and q2: "?d2 = takeWhile (\<lambda>c. c \<noteq> NUL) (take 4096 ?d2)"
    and q3: "?d3 = takeWhile (\<lambda>c. c \<noteq> NUL) (take 4096 ?d3)"
    by (simp_all add: NUL_def)
  have t1: "ws_tokens (getline ?d1) = [''POST'']"
    and t2: "ws_tokens (getline ?d2) = [''GET'']"
    and t3: "ws_tokens (getline ?d3) = [''GET'', ''/missing.txt'']"
    by (simp_all add: getline_def LF_def ws_tokens.simps isspace_def)
  have l: "length (ws_tokens (getline ?d1)) < 3" "length (ws_tokens (getline ?d2)) < 3"
    "length (ws_tokens (getline ?d3)) < 3"
    by (simp_all add: t1 t2 t3)
  have r: "fs_canonical www_env www_root = Some ''/srv/www''"
    by (simp add: www_env_def www_root_def)
  have fp: "request_file_path www_root [] = ''/srv/www''"
    by (simp add: request_file_path_def www_root_def)
  have q: "fs_canonical www_env (request_file_path www_root []) = Some ''/srv/www''"
    unfolding fp by (simp add: www_env_def)
  have f: "fs_open www_env ''/srv/www'' = Some \<lparr>tellg_end = 0x7FFFFFFFFFFFFFFF, file_bytes = []\<rparr>"
    by (simp add: www_env_def)
  have u: "unat (0x7FFFFFFFFFFFFFFF :: 64 word) = 9223372036854775807"
    by simp
  have g2: "handleGetRequest www_env www_root [] =
      ([Open ''/srv/www'', Send (file_headers www_env ''/srv/www'' 9223372036854775807)], Returns)"
    using handleGetRequest_inside [OF r q] f u unfolding fp by simp
  have g3: "handleGetRequest www_env www_root ''/missing.txt'' = ([], Throws_filesystem_error)"
    by (simp add: handleGetRequest_not_canonical request_file_path_def www_root_def www_env_def)
  from C5_short_request_line [OF n(1) s(1) q1 l(1), of www_env www_root]
  have a: "handleClient www_env www_root (Read_bytes ?d1)
      = ([Send method_not_allowed_response, Close], Returns)"
    unfolding t1 by (simp add: token_or_empty_def)
  from C5_short_request_line [OF n(2) s(2) q2 l(2), of www_env www_root]
  have b: "handleClient www_env www_root (Read_bytes ?d2)
      = ([Open ''/srv/www'', Send (file_headers www_env ''/srv/www'' 9223372036854775807),
          Close], Returns)"
    unfolding t2 by (simp add: token_or_empty_def g2)
  from C5_short_request_line [OF n(3) s(3) q3 l(3), of www_env www_root]
  have c: "handleClient www_env www_root (Read_bytes ?d3) = ([], Throws_filesystem_error)"
    unfolding t3 by (simp add: token_or_empty_def g3)
  from a b c show ?thesis by blast
qed

text \<open>
  A request line of two tokens, GET and the path of an existing file, is answered with
  200 and the file, not with 404.
\<close>

theorem C5_two_tokens_counterexample:
  "length (ws_tokens (getline ''GET /index.html\<newline>'')) < 3
   \<and> has_status 200 (fst (handleClient www_env www_root (Read_bytes ''GET /index.html\<newline>'')))
   \<and> \<not> has_status 404 (fst (handleClient www_env www_root (Read_bytes ''GET /index.html\<newline>'')))"
proof -
  let ?d = "''GET /index.html\<newline>''"
  let ?s = "\<lparr>tellg_end = 10, file_bytes = ''hello1234\<newline>''\<rparr>"
  have t: "ws_tokens (getline ?d) = [''GET'', ''/index.html'']"
    by (simp add: getline_def LF_def ws_tokens.simps isspace_def)
  have a: "0 < bytes_read (Read_bytes ?d)"
    by (simp add: bytes_read_def)
  have b: "c_string (buffer_after_read (Read_bytes ?d)) = Some ?d"
    by (simp add: c_string_short_read NUL_def)
  have c: "req_method (parse_request_line (getline ?d)) = ''GET''"
    "req_path (parse_request_line (getline ?d)) = ''/index.html''"
    by (simp_all add: request_eval)
  have fp: "request_file_path www_root ''/index.html'' = ''/srv/www/index.html''"
    by (simp add: www_root_def request_file_path_def)
  have r: "fs_canonical www_env www_root = Some ''/srv/www''"
    by (simp add: www_env_def www_root_def)
  have q: "fs_canonical www_env (request_file_path www_root ''/index.html'') = Some ''/srv/www/index.html''"
    by (simp add: fp) (simp add: www_env_def)
  have p: "prefix ''/srv/www'' ''/srv/www/index.html''"
    by simp
  have f: "fs_open www_env (request_file_path www_root ''/index.html'') = Some ?s"
    by (simp add: fp) (simp add: www_env_def)
  have g: "handleGetRequest www_env www_root ''/index.html'' =
      (Open ''/srv/www/index.html''
         # Send (file_headers www_env ''/srv/www/index.html'' (unat (tellg_end ?s)))
         # send_file_loop (file_bytes ?s), Returns)"
    using handleGetRequest_inside [OF r q p] f by (simp add: fp)
  have h: "handleClient www_env www_root (Read_bytes ?d) =
      (Open ''/srv/www/index.html''
         # Send (file_headers www_env ''/srv/www/index.html'' (unat (tellg_end ?s)))
         # send_file_loop (file_bytes ?s) @ [Close], Returns)"
    unfolding handleClient_request [OF a b] c g by simp
  have s200: "has_status 200 (fst (handleClient www_env www_root (Read_bytes ?d)))"
    unfolding h fst_conv by (rule has_status_file)
  have s404: "\<not> has_status 404 (fst (handleClient www_env www_root (Read_bytes ?d)))"
    unfolding h fst_conv by (simp add: has_status_def sent_def file_headers_def digit_char_def)
  from t s200 s404 show ?thesis by simp
qed

end
